theory Spec2Isabelle
  imports Main "HOL-Library.Log_Nat"
begin

section \<open>JavaScript values of the interpreter\<close>

text \<open>
  The interpreter of \<^verbatim>\<open>src/nock.js\<close> works on JavaScript values: a number is an atom,
  a two-element array is a cell. The model keeps what the code can observe of them.

  \<^item> \<open>Num k\<close> is a number whose value is the integer \<open>k\<close>. JavaScript numbers are IEEE
    doubles; every arithmetic result of the code is rounded to a double by \<open>js_double\<close>.
  \<^item> \<open>NaN\<close> is the number that arithmetic on a non-numeric operand yields.
  \<^item> \<open>Arr i xs\<close> is the array object with identity \<open>i\<close> and elements \<open>xs\<close>. The
    program never writes into an array, so an object is its identity together with its
    elements; \<^verbatim>\<open>===\<close> on two arrays compares the identities only.
  \<^item> \<open>Undefined\<close> is what reading a missing property returns.

  An array literal and \<^verbatim>\<open>slice\<close> create a new object. The functions that create objects
  take the next unused identity \<open>c\<close> and return the one that is unused afterwards.
\<close>

datatype jsval = Undefined | NaN | Num int | Arr nat "jsval list"

text \<open>
  The \<^verbatim>\<open>Error\<close> objects of the code, by message: \<^verbatim>\<open>'lus cell'\<close>, \<^verbatim>\<open>'tis atom'\<close>,
  \<^verbatim>\<open>'invalid fas noun'\<close>, \<^verbatim>\<open>'invalid fas addr: ' + f\<close> (with \<^verbatim>\<open>f = 0\<close> in \<^verbatim>\<open>fas\<close>),
  \<^verbatim>\<open>'invalid formula: ' + f[0]\<close>; and the \<^verbatim>\<open>TypeError\<close> of the language itself, raised by
  reading a property of \<^verbatim>\<open>undefined\<close> and by calling a value that is no function.
\<close>

datatype error =
    LusCell
  | TisAtom
  | InvalidFasNoun
  | InvalidFasAddr jsval
  | InvalidFormula jsval
  | TypeError

text \<open>
  A call either returns a value, throws, or (for \<^verbatim>\<open>nock\<close>) never returns:
  \<open>Some (Inr v)\<close>, \<open>Some (Inl e)\<close> and \<open>None\<close>. The call stack is taken to be unbounded.
\<close>

type_synonym 'a res = "(error + 'a) option"

definition throw :: "error \<Rightarrow> 'a res" where
  "throw e = Some (Inl e)"

definition ret :: "'a \<Rightarrow> 'a res" where
  "ret x = Some (Inr x)"

definition rbind :: "'a res \<Rightarrow> ('a \<Rightarrow> 'b res) \<Rightarrow> 'b res" where
  "rbind m k = (case m of None \<Rightarrow> None | Some (Inl e) \<Rightarrow> Some (Inl e) | Some (Inr x) \<Rightarrow> k x)"

subsection \<open>Numbers\<close>

text \<open>
  \<open>js_double x\<close> is the double nearest to the integer \<open>x\<close>, ties to the even mantissa
  (for \<open>\<bar>x\<bar> < 2 ^ 1024\<close>; the sums of the code stay below). Integers of at most 53 bits
  are doubles themselves.
\<close>

definition js_double :: "int \<Rightarrow> int" where
  "js_double x =
     (let e = bitlen \<bar>x\<bar> - 53 in
      if e \<le> 0 then x
      else
        let p = 2 ^ nat e; q = \<bar>x\<bar> div p; r = \<bar>x\<bar> mod p
        in sgn x * (if p < 2 * r \<or> (p = 2 * r \<and> odd q) then q + 1 else q) * p)"

text \<open>
  \<^verbatim>\<open>ToNumber\<close>: a number is itself, \<^verbatim>\<open>undefined\<close> is \<^verbatim>\<open>NaN\<close>, an array is the number its
  string \<^verbatim>\<open>join(',')\<close> reads as. \<open>join_number\<close> is that reading for an array element:
  \<^verbatim>\<open>join\<close> writes \<^verbatim>\<open>undefined\<close> as the empty string, which reads as 0, and two elements or
  more give a string with a comma, which reads as \<^verbatim>\<open>NaN\<close>.
\<close>

fun join_number :: "jsval \<Rightarrow> jsval" where
  "join_number Undefined = Num 0"
| "join_number NaN = NaN"
| "join_number (Num k) = Num k"
| "join_number (Arr i []) = Num 0"
| "join_number (Arr i [x]) = join_number x"
| "join_number (Arr i (x # y # zs)) = NaN"

fun to_number :: "jsval \<Rightarrow> jsval" where
  "to_number Undefined = NaN"
| "to_number v = join_number v"

text \<open>\<^verbatim>\<open>k + x\<close> for a number \<open>x\<close> (the code adds numbers only).\<close>

fun js_add :: "int \<Rightarrow> jsval \<Rightarrow> jsval" where
  "js_add k (Num a) = Num (js_double (k + a))"
| "js_add k v = NaN"

text \<open>\<^verbatim>\<open>x % m\<close>: the remainder has the sign of the dividend.\<close>

definition js_rem :: "jsval \<Rightarrow> int \<Rightarrow> jsval" where
  "js_rem x m = (case to_number x of Num a \<Rightarrow> Num (sgn a * (\<bar>a\<bar> mod \<bar>m\<bar>)) | _ \<Rightarrow> NaN)"

text \<open>\<^verbatim>\<open>ToInt32\<close> of an integer: modulo \<open>2 ^ 32\<close>, read as two's complement.\<close>

definition to_int32 :: "int \<Rightarrow> int" where
  "to_int32 i = (let m = i mod 2 ^ 32 in if 2 ^ 31 \<le> m then m - 2 ^ 32 else m)"

text \<open>
  \<^verbatim>\<open>(x / 2)|0\<close>: halving a double is exact, and \<^verbatim>\<open>|0\<close> drops the fraction (towards zero)
  and applies \<^verbatim>\<open>ToInt32\<close>; \<^verbatim>\<open>NaN|0\<close> is 0.
\<close>

definition js_half_int32 :: "jsval \<Rightarrow> jsval" where
  "js_half_int32 x =
     (case to_number x of Num a \<Rightarrow> Num (to_int32 (sgn a * (\<bar>a\<bar> div 2))) | _ \<Rightarrow> Num 0)"

text \<open>\<^verbatim>\<open>x > k\<close>; a comparison with \<^verbatim>\<open>NaN\<close> is false.\<close>

definition js_gt :: "jsval \<Rightarrow> int \<Rightarrow> bool" where
  "js_gt x k = (case to_number x of Num a \<Rightarrow> k < a | _ \<Rightarrow> False)"

text \<open>\<^verbatim>\<open>a === b\<close>: numbers by value, arrays by identity, \<^verbatim>\<open>NaN\<close> equal to nothing.\<close>

fun strict_eq :: "jsval \<Rightarrow> jsval \<Rightarrow> bool" where
  "strict_eq Undefined Undefined = True"
| "strict_eq (Num a) (Num b) = (a = b)"
| "strict_eq (Arr i xs) (Arr j ys) = (i = j)"
| "strict_eq a b = False"

text \<open>
  \<^verbatim>\<open>v[i]\<close>: a \<^verbatim>\<open>TypeError\<close> on \<^verbatim>\<open>undefined\<close>, \<^verbatim>\<open>undefined\<close> on a number and past the end
  of an array.
\<close>

fun get :: "jsval \<Rightarrow> nat \<Rightarrow> jsval res" where
  "get Undefined i = throw TypeError"
| "get (Arr a xs) i = ret (if i < length xs then xs ! i else Undefined)"
| "get v i = ret Undefined"

section \<open>Operators\<close>

text \<open>\<^verbatim>\<open>wut(n)\<close>: \<^verbatim>\<open>typeof n === 'number' ? 1 : 0\<close>.\<close>

fun wut :: "jsval \<Rightarrow> int" where
  "wut (Num k) = 1"
| "wut NaN = 1"
| "wut v = 0"

definition lus :: "jsval \<Rightarrow> jsval res" where
  "lus n = (if wut n = 0 then throw LusCell else ret (js_add 1 n))"

definition tis :: "jsval \<Rightarrow> jsval res" where
  "tis n =
     (if wut n = 1 then throw TisAtom
      else rbind (get n 0) (\<lambda>a. rbind (get n 1) (\<lambda>b.
             ret (Num (if strict_eq a b then 0 else 1)))))"

text \<open>
  \<^verbatim>\<open>fas(addr, n)\<close>. The arguments of the recursive call are evaluated left to right;
  only the second can throw, so the model runs it first and computes the new address
  after it.
\<close>

partial_function (option) fas :: "jsval \<Rightarrow> jsval \<Rightarrow> jsval res" where
  "fas addr n =
     (if strict_eq n Undefined then throw InvalidFasNoun
      else if strict_eq addr (Num 0) then throw (InvalidFasAddr (Num 0))
      else if strict_eq addr (Num 1) then ret n
      else if strict_eq addr (Num 2) then get n 0
      else if strict_eq addr (Num 3) then get n 1
      else Option.bind (fas (js_half_int32 addr) n)
             (\<lambda>r. case r of Inl e \<Rightarrow> Some (Inl e)
                   | Inr p \<Rightarrow> fas (js_add 2 (js_rem addr 2)) p))"

declare fas.simps [code]


text \<open>\<open>rbind\<close> and a pattern on a pair keep a recursive definition monotone.\<close>

lemma rbind_mono [partial_function_mono]:
  assumes "mono_option B" and "\<And>y. mono_option (C y)"
  shows "mono_option (\<lambda>f. rbind (B f) (\<lambda>y. C y f))"
proof -
  have eq: "\<And>f. rbind (B f) (\<lambda>y. C y f) =
      Option.bind (B f) (\<lambda>r. case r of Inl e \<Rightarrow> Some (Inl e) | Inr x \<Rightarrow> C x f)"
    by (simp add: rbind_def split: option.splits sum.splits)
  have "mono_option (\<lambda>f. case y of Inl e \<Rightarrow> Some (Inl e) | Inr x \<Rightarrow> C x f)" for y
    by (cases y) (simp_all add: assms option.const_mono)
  then show ?thesis
    unfolding eq by (intro partial_function_mono assms)
qed

lemma case_prod_mono [partial_function_mono]:
  assumes "\<And>a b. mono_option (\<lambda>f. C f a b)"
  shows "mono_option (\<lambda>f. case y of (a, b) \<Rightarrow> C f a b)"
  by (cases y) (simp add: assms)

section \<open>Formulas\<close>

text \<open>
  The handlers call \<^verbatim>\<open>nock\<close>, which is defined after them: each takes the evaluator as
  its first argument \<open>nk\<close>, and \<open>nock\<close> passes itself. A handler \<open>h\<close> of the code is called
  as \<^verbatim>\<open>h(s, f)\<close>; here as \<open>h c s f\<close>, with \<open>c\<close> the next unused array identity, and it
  returns its product together with the identity that is unused afterwards.
\<close>

type_synonym evaluator = "nat \<Rightarrow> jsval \<Rightarrow> jsval \<Rightarrow> (jsval \<times> nat) res"

text \<open>
  \<^verbatim>\<open>slot(s, f)\<close>: an error of \<^verbatim>\<open>fas\<close> is caught and thrown again; \<^verbatim>\<open>undefined\<close> from \<^verbatim>\<open>fas\<close>
  is turned into an error.
\<close>

definition slot :: evaluator where
  "slot c s f =
     rbind (fas f s) (\<lambda>p.
       if strict_eq p Undefined then throw (InvalidFasAddr f) else ret (p, c))"

definition "constant" :: evaluator where
  "constant c s f = ret (f, c)"

definition evaluate :: "evaluator \<Rightarrow> evaluator" where
  "evaluate nk c s f =
     rbind (get f 0) (\<lambda>b. rbind (nk c s b) (\<lambda>(s', c1).
     rbind (get f 1) (\<lambda>d. rbind (nk c1 s d) (\<lambda>(f', c2).
       nk c2 s' f'))))"

definition cell :: "evaluator \<Rightarrow> evaluator" where
  "cell nk c s f = rbind (nk c s f) (\<lambda>(p, c1). ret (Num (wut p), c1))"

definition incr :: "evaluator \<Rightarrow> evaluator" where
  "incr nk c s f = rbind (nk c s f) (\<lambda>(p, c1). rbind (lus p) (\<lambda>v. ret (v, c1)))"

definition eq :: "evaluator \<Rightarrow> evaluator" where
  "eq nk c s f = rbind (nk c s f) (\<lambda>(p, c1). rbind (tis p) (\<lambda>v. ret (v, c1)))"

definition ife :: "evaluator \<Rightarrow> evaluator" where
  "ife nk c s f =
     rbind (get f 0) (\<lambda>b. rbind (nk c s b) (\<lambda>(p, c1).
       if strict_eq p (Num 0)
       then rbind (get f 1) (\<lambda>t. rbind (get t 0) (\<lambda>y. nk c1 s y))
       else rbind (get f 1) (\<lambda>t. rbind (get t 1) (\<lambda>z. nk c1 s z))))"

definition compose :: "evaluator \<Rightarrow> evaluator" where
  "compose nk c s f =
     rbind (get f 0) (\<lambda>b. rbind (nk c s b) (\<lambda>(p, c1).
     rbind (get f 1) (\<lambda>d. nk c1 p d)))"

text \<open>\<^verbatim>\<open>extend\<close> builds the array \<^verbatim>\<open>[nock(s, f[0]), s]\<close>, a new object.\<close>

definition extend :: "evaluator \<Rightarrow> evaluator" where
  "extend nk c s f =
     rbind (get f 0) (\<lambda>b. rbind (nk c s b) (\<lambda>(p, c1).
     rbind (get f 1) (\<lambda>d. nk (Suc c1) (Arr c1 [p, s]) d)))"

definition invoke :: "evaluator \<Rightarrow> evaluator" where
  "invoke nk c s f =
     rbind (get f 1) (\<lambda>d. rbind (nk c s d) (\<lambda>(prod, c1).
     rbind (get f 0) (\<lambda>b. rbind (slot c1 prod b) (\<lambda>(g, c2).
       nk c2 prod g))))"

definition hint :: "evaluator \<Rightarrow> evaluator" where
  "hint nk c s f =
     rbind (get f 0) (\<lambda>b.
       if wut b = 1
       then rbind (get b 1) (\<lambda>h. rbind (nk c s h) (\<lambda>(u, c1).
            rbind (get f 1) (\<lambda>d. nk c1 s d)))
       else rbind (get f 1) (\<lambda>d. nk c s d))"

text \<open>The table \<^verbatim>\<open>formulas\<close>, and the call \<^verbatim>\<open>formulas[h](s, t)\<close>: an index that is not one
  of the table's yields \<^verbatim>\<open>undefined\<close>, and calling it is a \<^verbatim>\<open>TypeError\<close>.\<close>

definition formulas :: "evaluator \<Rightarrow> evaluator list" where
  "formulas nk =
     [slot, constant, evaluate nk, cell nk, incr nk, eq nk, ife nk, compose nk,
      extend nk, invoke nk, hint nk]"

definition call_formula :: "evaluator \<Rightarrow> jsval \<Rightarrow> evaluator" where
  "call_formula nk h c s t =
     (case h of
        Num k \<Rightarrow>
          if 0 \<le> k \<and> nat k < length (formulas nk) then (formulas nk ! nat k) c s t
          else throw TypeError
      | _ \<Rightarrow> throw TypeError)"

lemma below_eleven: "n < (11::nat) \<Longrightarrow> n \<in> {0, 1, 2, 3, 4, 5, 6, 7, 8, 9, 10}"
  by (simp; presburger)

lemma evaluate_mono:
  assumes "\<And>c s f. mono_option (\<lambda>g. N g c s f)"
  shows "mono_option (\<lambda>g. evaluate (N g) c s f)"
  unfolding evaluate_def by (intro partial_function_mono assms)

lemma cell_mono:
  assumes "\<And>c s f. mono_option (\<lambda>g. N g c s f)"
  shows "mono_option (\<lambda>g. cell (N g) c s f)"
  unfolding cell_def by (intro partial_function_mono assms)

lemma incr_mono:
  assumes "\<And>c s f. mono_option (\<lambda>g. N g c s f)"
  shows "mono_option (\<lambda>g. incr (N g) c s f)"
  unfolding incr_def by (intro partial_function_mono assms)

lemma eq_mono:
  assumes "\<And>c s f. mono_option (\<lambda>g. N g c s f)"
  shows "mono_option (\<lambda>g. eq (N g) c s f)"
  unfolding eq_def by (intro partial_function_mono assms)

lemma ife_mono:
  assumes "\<And>c s f. mono_option (\<lambda>g. N g c s f)"
  shows "mono_option (\<lambda>g. ife (N g) c s f)"
  unfolding ife_def by (intro partial_function_mono assms)

lemma compose_mono:
  assumes "\<And>c s f. mono_option (\<lambda>g. N g c s f)"
  shows "mono_option (\<lambda>g. compose (N g) c s f)"
  unfolding compose_def by (intro partial_function_mono assms)

lemma extend_mono:
  assumes "\<And>c s f. mono_option (\<lambda>g. N g c s f)"
  shows "mono_option (\<lambda>g. extend (N g) c s f)"
  unfolding extend_def by (intro partial_function_mono assms)

lemma invoke_mono:
  assumes "\<And>c s f. mono_option (\<lambda>g. N g c s f)"
  shows "mono_option (\<lambda>g. invoke (N g) c s f)"
  unfolding invoke_def by (intro partial_function_mono assms)

lemma hint_mono:
  assumes "\<And>c s f. mono_option (\<lambda>g. N g c s f)"
  shows "mono_option (\<lambda>g. hint (N g) c s f)"
  unfolding hint_def by (intro partial_function_mono assms)

lemma length_formulas: "length (formulas nk) = 11"
  by (simp add: formulas_def)

lemma formulas_mono:
  assumes N: "\<And>c s f. mono_option (\<lambda>g. N g c s f)" and n: "n < 11"
  shows "mono_option (\<lambda>g. (formulas (N g) ! n) c s t)"
  using below_eleven [OF n] unfolding formulas_def
  by (elim insertE emptyE)
     (simp_all add: option.const_mono evaluate_mono cell_mono incr_mono eq_mono ife_mono
        compose_mono extend_mono invoke_mono hint_mono N)

lemma call_formula_mono [partial_function_mono]:
  assumes N: "\<And>c s f. mono_option (\<lambda>g. N g c s f)"
  shows "mono_option (\<lambda>g. call_formula (N g) h c s t)"
proof (cases h)
  case (Num k)
  show ?thesis
  proof (cases "0 \<le> k \<and> nat k < 11")
    case True
    then have "call_formula (N g) h c s t = (formulas (N g) ! nat k) c s t" for g
      by (simp add: call_formula_def length_formulas Num)
    with True show ?thesis
      by (simp add: formulas_mono N)
  next
    case False
    then have "call_formula (N g) h c s t = throw TypeError" for g
      by (auto simp add: call_formula_def length_formulas Num)
    then show ?thesis
      by (simp add: option.const_mono)
  qed
qed (simp_all add: call_formula_def option.const_mono)

section \<open>The evaluator\<close>

text \<open>
  \<^verbatim>\<open>nock(s, f)\<close>. A formula whose head is no number is a pair of formulas, and the
  product is a new two-element array. The function need not return; it is the least
  fixed point of its equation, with \<open>None\<close> for a call that never returns.
\<close>

partial_function (option) nock :: "nat \<Rightarrow> jsval \<Rightarrow> jsval \<Rightarrow> (jsval \<times> nat) res" where
  "nock c s f =
     rbind (get f 0) (\<lambda>h.
       if wut h = 0
       then rbind (nock c s h) (\<lambda>(a, c1). rbind (get f 1) (\<lambda>t.
            rbind (nock c1 s t) (\<lambda>(b, c2). ret (Arr c2 [a, b], Suc c2))))
       else if js_gt h 10 then throw (InvalidFormula h)
       else rbind (get f 1) (\<lambda>t. call_formula nock h c s t))"

declare nock.simps [code]

section \<open>Grouping an array into pairs\<close>

text \<open>
  \<^verbatim>\<open>assoc(x)\<close>. Reading \<^verbatim>\<open>x.length\<close> of \<^verbatim>\<open>undefined\<close> is a \<^verbatim>\<open>TypeError\<close>; a number has
  no \<^verbatim>\<open>length\<close> and an empty array has length 0, and both are returned as they are. An
  array of one element gives \<^verbatim>\<open>assoc(x[0])\<close>. Otherwise \<^verbatim>\<open>assoc(x[0])\<close> runs first, then
  \<^verbatim>\<open>x.slice(1)\<close> creates the array of the remaining elements, \<^verbatim>\<open>assoc\<close> runs on it, and
  the array literal creates the pair.
\<close>

fun assoc :: "nat \<Rightarrow> jsval \<Rightarrow> (jsval \<times> nat) res" where
  "assoc c Undefined = throw TypeError"
| "assoc c NaN = ret (NaN, c)"
| "assoc c (Num k) = ret (Num k, c)"
| "assoc c (Arr i []) = ret (Arr i [], c)"
| "assoc c (Arr i [y]) = assoc c y"
| "assoc c (Arr i (y # z # zs)) =
     rbind (assoc c y) (\<lambda>(a, c1).
     rbind (assoc (Suc c1) (Arr c1 (z # zs))) (\<lambda>(b, c2).
       ret (Arr c2 [a, b], Suc c2)))"

section \<open>Nouns\<close>

text \<open>
  The nouns of the specification: an atom is an unsigned integer, a cell is an ordered
  pair of nouns. \<open>noun_of\<close> reads a JavaScript value as a noun: a number that is a
  natural number is an atom, an array of two nouns is a cell, and nothing else is a noun.
  Two values are the same noun when they are structurally equal at every depth, whatever
  the identities of their arrays.
\<close>

datatype noun = Atom nat | Cell noun noun

fun noun_of :: "jsval \<Rightarrow> noun option" where
  "noun_of (Num k) = (if 0 \<le> k then Some (Atom (nat k)) else None)"
| "noun_of (Arr i [a, b]) =
     (case noun_of a of None \<Rightarrow> None
      | Some x \<Rightarrow> (case noun_of b of None \<Rightarrow> None | Some y \<Rightarrow> Some (Cell x y)))"
| "noun_of v = None"

definition is_noun :: "jsval \<Rightarrow> bool" where
  "is_noun v = (noun_of v \<noteq> None)"

text \<open>
  The tree-address resolver as the specification words it: address 1 is the noun,
  2 its head, 3 its tail, and a greater address takes the head (even) or the tail (odd)
  of what half the address resolves to. \<open>None\<close> is its failure: address 0, or the head
  or tail of an atom.
\<close>

fun head :: "noun \<Rightarrow> noun option" where
  "head (Cell a b) = Some a"
| "head (Atom k) = None"

fun tail :: "noun \<Rightarrow> noun option" where
  "tail (Cell a b) = Some b"
| "tail (Atom k) = None"

function resolve :: "nat \<Rightarrow> noun \<Rightarrow> noun option" where
  "resolve address n =
     (if address = 0 then None
      else if address = 1 then Some n
      else if address = 2 then head n
      else if address = 3 then tail n
      else case resolve (address div 2) n of
             None \<Rightarrow> None
           | Some parent \<Rightarrow> if even address then head parent else tail parent)"
  by pat_completeness auto
termination
  by (relation "measure fst") auto

declare resolve.simps [simp del]

text \<open>
  The right-nested noun of a sequence of atoms \<open>k, j1, \<dots>, jn\<close>: \<open>[k j1 \<dots> jn]\<close>.
\<close>

fun nest :: "nat \<Rightarrow> nat list \<Rightarrow> noun" where
  "nest k [] = Atom k"
| "nest k (j # js) = Cell (Atom k) (nest j js)"

text \<open>
  A deep noun for the resolver: \<open>heads_nested d\<close> is the atom 0 wrapped \<open>d\<close> times as
  the head of a cell, \<^verbatim>\<open>[[[0, 0], 0], 0]\<close> for \<open>d = 3\<close>, each array an object of its own.
\<close>

fun heads_nested :: "nat \<Rightarrow> jsval" where
  "heads_nested 0 = Num 0"
| "heads_nested (Suc d) = Arr d [heads_nested d, Num 0]"

section \<open>Results, errors and calls that do not return\<close>

lemma rbind_ret [simp]: "rbind (ret x) k = k x"
  by (simp add: rbind_def ret_def)

lemma rbind_throw [simp]: "rbind (throw e) k = throw e"
  by (simp add: rbind_def throw_def)

lemma rbind_None [simp]: "rbind None k = None"
  by (simp add: rbind_def)

lemma ret_eq_iff [simp]: "ret x = ret y \<longleftrightarrow> x = y"
  by (simp add: ret_def)

lemma throw_eq_iff [simp]: "throw d = throw e \<longleftrightarrow> d = e"
  by (simp add: throw_def)

lemma ret_neq_throw [simp]:
  "ret x \<noteq> throw e" "throw e \<noteq> ret x" "ret x \<noteq> None" "throw e \<noteq> None"
  "None \<noteq> ret x" "None \<noteq> throw e"
  by (simp_all add: ret_def throw_def)

lemma strict_eq_Undefined [simp]: "strict_eq n Undefined \<longleftrightarrow> n = Undefined"
  by (cases n) simp_all

lemma strict_eq_Num [simp]: "strict_eq (Num a) v \<longleftrightarrow> v = Num a"
  by (cases v) auto

lemma strict_eq_Num_right [simp]: "strict_eq v (Num a) \<longleftrightarrow> v = Num a"
  by (cases v) auto

section \<open>Dispatch\<close>

lemma nock_undefined: "nock c s Undefined = throw TypeError"
  by (subst nock.simps) simp

lemma nock_opcode:
  "0 \<le> k \<Longrightarrow> k \<le> 10 \<Longrightarrow> nock c s (Arr i [Num k, t]) = (formulas nock ! nat k) c s t"
proof -
  assume k: "0 \<le> k" "k \<le> 10"
  then have "nat k < 11"
    by simp
  with k show ?thesis
    by (subst nock.simps) (simp add: js_gt_def call_formula_def length_formulas)
qed

lemma nock_invalid:
  "10 < k \<Longrightarrow> nock c s (Arr i [Num k, t]) = throw (InvalidFormula (Num k))"
  by (subst nock.simps) (simp add: js_gt_def)

text \<open>
  C3. A formula whose head is an atom greater than 10 makes \<^verbatim>\<open>nock\<close> throw
  \<^verbatim>\<open>'invalid formula: ' + f[0]\<close>, whatever the subject and the tail; a head atom from 0
  to 10 calls the handler at that index of the table \<open>formulas\<close> (\<open>slot\<close>, \<open>constant\<close>,
  \<open>evaluate\<close>, \<open>cell\<close>, \<open>incr\<close>, \<open>eq\<close>, \<open>ife\<close>, \<open>compose\<close>, \<open>extend\<close>, \<open>invoke\<close>, \<open>hint\<close>)
  with the subject and the formula's tail.
\<close>

theorem nock_dispatch:
  "(10 < k \<longrightarrow> nock c s (Arr i [Num k, t]) = throw (InvalidFormula (Num k))) \<and>
   (0 \<le> k \<and> k \<le> 10 \<longrightarrow> nock c s (Arr i [Num k, t]) = (formulas nock ! nat k) c s t)"
  by (simp add: nock_opcode nock_invalid)

theorem nock_dispatch_witness:
  "nock 0 (Num 0) (Arr 0 [Num 11, Num 0]) = throw (InvalidFormula (Num 11)) \<and>
   nock 0 (Num 5) (Arr 0 [Num 4, Arr 1 [Num 0, Num 1]])
     = incr nock 0 (Num 5) (Arr 1 [Num 0, Num 1])"
  using nock_dispatch [of 11 0 "Num 0" 0 "Num 0"]
    nock_dispatch [of 4 0 "Num 5" 0 "Arr 1 [Num 0, Num 1]"]
  by (simp add: formulas_def)

text \<open>
  C10. A formula that is an atom never yields a product: \<^verbatim>\<open>f[0]\<close> of a number is
  \<^verbatim>\<open>undefined\<close>, which is no number, so \<^verbatim>\<open>nock\<close> calls itself on \<^verbatim>\<open>undefined\<close>, where
  reading \<^verbatim>\<open>f[0]\<close> raises the language's \<^verbatim>\<open>TypeError\<close>, none of the interpreter's own
  errors.
\<close>

theorem nock_atom_formula: "nock c s (Num k) = throw TypeError"
  by (subst nock.simps) (simp add: nock_undefined)

subsection \<open>The scenarios of the specification that the code meets\<close>

lemma nock_identity: "s \<noteq> Undefined \<Longrightarrow> nock c s (Arr i [Num 0, Num 1]) = ret (s, c)"
  by (simp add: nock_opcode formulas_def slot_def) (subst fas.simps, simp)

lemma nock_constant: "nock c s (Arr i [Num 1, Num 42]) = ret (Num 42, c)"
  by (simp add: nock_opcode formulas_def constant_def)

lemma nock_slot_scenario:
  "nock 10 (Arr 0 [Num 132, Num 19]) (Arr 1 [Num 0, Num 3]) = ret (Num 19, 10)"
  by (simp add: nock_opcode formulas_def slot_def) (subst fas.simps, simp)

lemma nock_increment_scenario:
  "nock 10 (Arr 0 [Num 132, Num 19]) (Arr 1 [Num 4, Arr 2 [Num 0, Num 3]]) = ret (Num 20, 10)"
  by code_simp

lemma nock_increment_cell:
  "nock 10 (Arr 0 [Num 1, Num 2]) (Arr 1 [Num 4, Arr 2 [Num 0, Num 1]]) = throw LusCell"
  by code_simp

lemma nock_compose_scenario:
  "nock 10 (Num 42)
     (Arr 0 [Num 7, Arr 1 [Arr 2 [Num 4, Arr 3 [Num 0, Num 1]],
                            Arr 4 [Num 4, Arr 5 [Num 0, Num 1]]]])
   = ret (Num 44, 10)"
  by code_simp

section \<open>Compose\<close>

text \<open>
  C6. The compose law: evaluating \<^verbatim>\<open>[7, [f, g]]\<close> against \<open>s\<close> is evaluating \<open>f\<close> against
  \<open>s\<close> and then \<open>g\<close> against that product. Both sides return the same product, throw the
  same error, or both do not return.
\<close>

theorem compose_law:
  "nock c s (Arr i [Num 7, Arr j [f, g]]) = rbind (nock c s f) (\<lambda>(p, c1). nock c1 p g)"
proof -
  have "nock c s (Arr i [Num 7, Arr j [f, g]]) = compose nock c s (Arr j [f, g])"
    using nock_opcode [of 7 c s i "Arr j [f, g]"] by (simp add: formulas_def)
  also have "\<dots> = rbind (nock c s f) (\<lambda>(p, c1). nock c1 p g)"
    by (simp add: compose_def)
  finally show ?thesis .
qed

section \<open>Arithmetic of the code on small numbers\<close>

lemma js_double_small: "\<bar>x\<bar> < 2 ^ 53 \<Longrightarrow> js_double x = x"
  by (simp add: js_double_def bitlen_le_iff_power)

lemma to_int32_small: "0 \<le> i \<Longrightarrow> i < 2 ^ 31 \<Longrightarrow> to_int32 i = i"
  by (simp add: to_int32_def)

lemma js_half_small: "0 \<le> a \<Longrightarrow> a < 2 ^ 32 \<Longrightarrow> js_half_int32 (Num a) = Num (a div 2)"
proof -
  assume a: "0 \<le> a" "a < 2 ^ 32"
  then have e: "sgn a * (\<bar>a\<bar> div 2) = a div 2"
    by (cases "a = 0") simp_all
  from a have "0 \<le> a div 2" "a div 2 < 2 ^ 31"
    by simp_all
  then have "to_int32 (a div 2) = a div 2"
    by (rule to_int32_small)
  then show ?thesis
    unfolding js_half_int32_def
    by (simp only: to_number.simps join_number.simps jsval.case e)
qed

lemma js_parity_small: "0 \<le> a \<Longrightarrow> js_add 2 (js_rem (Num a) 2) = Num (2 + a mod 2)"
proof -
  assume a: "0 \<le> a"
  then have e: "sgn a * (\<bar>a\<bar> mod \<bar>2\<bar>) = a mod 2"
    by (cases "a = 0") simp_all
  have "\<bar>2 + a mod 2\<bar> < 2 ^ 53"
    by simp
  then have "js_double (2 + a mod 2) = 2 + a mod 2"
    by (rule js_double_small)
  then show ?thesis
    unfolding js_rem_def
    by (simp only: to_number.simps join_number.simps jsval.case e js_add.simps)
qed

text \<open>Halving a negative 32-bit number stays negative or reaches 0.\<close>

lemma js_half_negative:
  assumes "a < 0" and "- (2 ^ 31) \<le> a"
  shows "js_half_int32 (Num a) = Num (- (- a div 2))"
proof -
  from assms have e: "sgn a * (\<bar>a\<bar> div 2) = - (- a div 2)"
    by simp
  have "to_int32 (- (- a div 2)) = - (- a div 2)"
  proof (cases "- a div 2 = 0")
    case True
    then show ?thesis by (simp add: to_int32_def)
  next
    case False
    with assms have "0 < - a div 2" "- a div 2 \<le> 2 ^ 31"
      by simp_all
    then have "(- (- a div 2)) mod 2 ^ 32 = 2 ^ 32 - (- a div 2)"
      by (simp add: zmod_zminus1_eq_if)
    with \<open>0 < - a div 2\<close> \<open>- a div 2 \<le> 2 ^ 31\<close> show ?thesis
      by (simp add: to_int32_def)
  qed
  then show ?thesis
    unfolding js_half_int32_def
    by (simp only: to_number.simps join_number.simps jsval.case e)
qed

text \<open>\<^verbatim>\<open>ToInt32\<close> on any integer, and on half a number.\<close>

lemma to_int32_range: "- (2 ^ 31) \<le> to_int32 i \<and> to_int32 i < 2 ^ 31"
proof -
  have "0 \<le> i mod 2 ^ 32" "i mod 2 ^ 32 < 2 ^ 32"
    by simp_all
  then show ?thesis
    unfolding to_int32_def Let_def by (auto split: if_splits)
qed

lemma to_int32_id: "- (2 ^ 31) \<le> i \<Longrightarrow> i < 2 ^ 31 \<Longrightarrow> to_int32 i = i"
proof (cases "0 \<le> i")
  case True
  assume "i < 2 ^ 31"
  with True show ?thesis by (simp add: to_int32_def)
next
  case False
  assume "- (2 ^ 31) \<le> i"
  with False have "i mod 2 ^ 32 = i + 2 ^ 32"
    by (intro mod_pos_pos_trivial [of "i + 2 ^ 32" "2 ^ 32", THEN subst [where P = "\<lambda>x. i mod 2 ^ 32 = x"]])
       (simp_all)
  with False \<open>- (2 ^ 31) \<le> i\<close> show ?thesis by (simp add: to_int32_def)
qed


lemma abs_to_int32_half:
  "\<bar>to_int32 (sgn a * (\<bar>a\<bar> div 2))\<bar> \<le> (if \<bar>a\<bar> < 2 ^ 32 then \<bar>a\<bar> div 2 else 2 ^ 31)"
proof (cases "\<bar>a\<bar> < 2 ^ 32")
  case True
  let ?t = "sgn a * (\<bar>a\<bar> div 2)"
  have t: "\<bar>?t\<bar> = \<bar>a\<bar> div 2"
    by (cases "a = 0") (simp_all add: abs_mult)
  from True have "\<bar>a\<bar> div 2 < 2 ^ 31"
    by simp
  with t have "- (2 ^ 31) \<le> ?t" "?t < 2 ^ 31"
    by linarith+
  then have "to_int32 ?t = ?t"
    by (rule to_int32_id)
  with t True show ?thesis
    by simp
next
  case False
  with to_int32_range [of "sgn a * (\<bar>a\<bar> div 2)"] show ?thesis
    by (simp add: abs_le_iff)
qed

section \<open>Increment\<close>

lemma lus_cell: "lus (Arr i xs) = throw LusCell"
  by (simp add: lus_def)

lemma lus_exact: "0 \<le> n \<Longrightarrow> n < 2 ^ 53 - 1 \<Longrightarrow> lus (Num n) = ret (Num (n + 1))"
  by (simp add: lus_def js_double_small)

lemma lus_exact_last: "lus (Num (2 ^ 53 - 1)) = ret (Num (2 ^ 53))"
  by code_simp

text \<open>
  C8. \<^verbatim>\<open>lus\<close> throws \<^verbatim>\<open>'lus cell'\<close> on an array and returns \<open>n + 1\<close> for an atom below
  \<open>2 ^ 53\<close> (\<open>lus_cell\<close>, \<open>lus_exact\<close>, \<open>lus_exact_last\<close>). It does not for every atom:
  \<^verbatim>\<open>1 + n\<close> is an addition of doubles, and at \<open>n = 2 ^ 53 = 9007199254740992\<close> the sum
  \<open>2 ^ 53 + 1\<close> is no double and is rounded back to \<open>n\<close>.
\<close>

theorem lus_precision:
  "lus (Num 9007199254740992) = ret (Num 9007199254740992)"
  by code_simp

section \<open>Equality\<close>

lemma tis_atom: "tis (Num k) = throw TisAtom"
  by (simp add: tis_def)

lemma tis_atoms: "tis (Arr i [Num a, Num b]) = ret (Num (if a = b then 0 else 1))"
  by (simp add: tis_def)

lemma tis_same_array: "tis (Arr i [Arr j xs, Arr j ys]) = ret (Num 0)"
  by (simp add: tis_def)

lemma tis_distinct_arrays: "j \<noteq> k \<Longrightarrow> tis (Arr i [Arr j xs, Arr k ys]) = ret (Num 1)"
  by (simp add: tis_def)

text \<open>
  The same through the evaluator: the formula \<^verbatim>\<open>[5, [[1, [1, 2]], [1, [1, 2]]]]\<close>, written
  with two array literals \<^verbatim>\<open>[1, 2]\<close>, compares the cell \<^verbatim>\<open>[1 2]\<close> with itself and
  yields 1.
\<close>

lemma nock_eq_of_constants:
  "nock 10 (Num 0)
     (Arr 0 [Num 5, Arr 1 [Arr 2 [Num 1, Arr 3 [Num 1, Num 2]],
                            Arr 4 [Num 1, Arr 5 [Num 1, Num 2]]]])
   = ret (Num 1, 11)"
  apply (subst nock.simps)
  apply (simp add: js_gt_def call_formula_def length_formulas formulas_def eq_def)
  apply (subst nock.simps)
  apply (simp add: nock_opcode formulas_def constant_def tis_def)
  done

text \<open>
  C1. \<^verbatim>\<open>tis\<close> is not a deep structural equality. It compares the two elements with
  \<^verbatim>\<open>===\<close>, which is equality of value on numbers (\<open>tis_atoms\<close>) and identity on arrays
  (\<open>tis_same_array\<close>, \<open>tis_distinct_arrays\<close>). On \<^verbatim>\<open>[[1, 2], [1, 2]]\<close>, whose
  two elements are different arrays and the same noun, it returns 1 where a cell of two
  equal nouns must give 0. The code marks the line \<^verbatim>\<open>TODO: s/b recursive?\<close>.
\<close>

theorem tis_shallow:
  "noun_of (Arr 1 [Num 1, Num 2]) = noun_of (Arr 2 [Num 1, Num 2]) \<and>
   tis (Arr 0 [Arr 1 [Num 1, Num 2], Arr 2 [Num 1, Num 2]]) = ret (Num 1)"
  by (simp add: tis_def)

section \<open>If-then-else\<close>

lemma ife_then:
  "nk c s b = ret (Num 0, c1) \<Longrightarrow> ife nk c s (Arr i [b, Arr j [y, z]]) = nk c1 s y"
  by (simp add: ife_def)

lemma ife_else:
  "nk c s b = ret (p, c1) \<Longrightarrow> p \<noteq> Num 0 \<Longrightarrow>
   ife nk c s (Arr i [b, Arr j [y, z]]) = nk c1 s z"
  by (simp add: ife_def)

text \<open>
  C2. \<^verbatim>\<open>ife\<close> takes the then-branch when the condition's product is 0 (\<open>ife_then\<close>) and
  the else-branch for every other product (\<open>ife_else\<close>), a cell included: it has no
  failure for a cell. With the condition \<^verbatim>\<open>[1, [2, 3]]\<close>, whose product is the cell
  \<^verbatim>\<open>[2 3]\<close>, the formula \<^verbatim>\<open>[6, [[1, [2, 3]], [[1, 10], [1, 20]]]]\<close> yields 20, the product
  of the else-branch. The formula the code documents for opcode 6 fails there (it
  increments the condition's product), and the code marks its own version
  \<^verbatim>\<open>TODO: fix; this is the simplified version\<close>.
\<close>

theorem ife_cell_condition:
  "nock 10 (Num 0)
     (Arr 0 [Num 6, Arr 1 [Arr 2 [Num 1, Arr 3 [Num 2, Num 3]],
                            Arr 4 [Arr 5 [Num 1, Num 10], Arr 6 [Num 1, Num 20]]]])
   = ret (Num 20, 10)"
  by (simp add: nock_opcode formulas_def ife_def constant_def)

section \<open>Hint\<close>

lemma hint_atom: "hint nock c s (Arr i [Num k, d]) = throw TypeError"
  by (simp add: hint_def nock_undefined)

lemma hint_cell: "hint nk c s (Arr i [Arr j xs, d]) = nk c s d"
  by (simp add: hint_def)

text \<open>
  C7. \<^verbatim>\<open>hint\<close> tests \<^verbatim>\<open>wut(f[0]) === 1\<close>, which holds when the hint is an atom, and then
  evaluates \<^verbatim>\<open>f[0][1]\<close>, which is \<^verbatim>\<open>undefined\<close>: with an atom as hint every evaluation
  fails with a \<^verbatim>\<open>TypeError\<close> (\<open>hint_atom\<close>). With a cell as hint the tail of the hint is
  not evaluated and the product is that of the second formula (\<open>hint_cell\<close>). The
  scenario of the specification, subject \<^verbatim>\<open>[132, 19]\<close> and formula
  \<^verbatim>\<open>[10, [37, [4, [0, 3]]]]\<close>, fails instead of producing 20.
\<close>

theorem hint_atom_scenario:
  "nock 10 (Arr 0 [Num 132, Num 19])
     (Arr 1 [Num 10, Arr 2 [Num 37, Arr 3 [Num 4, Arr 4 [Num 0, Num 3]]]])
   = throw TypeError"
  by (simp add: nock_opcode formulas_def hint_def nock_undefined)

section \<open>The tree-address resolver\<close>

subsection \<open>The steps of \<^verbatim>\<open>fas\<close>\<close>

lemma fas_undefined: "fas addr Undefined = throw InvalidFasNoun"
  by (subst fas.simps) simp

lemma fas_0: "n \<noteq> Undefined \<Longrightarrow> fas (Num 0) n = throw (InvalidFasAddr (Num 0))"
  by (subst fas.simps) simp

lemma fas_1: "n \<noteq> Undefined \<Longrightarrow> fas (Num 1) n = ret n"
  by (subst fas.simps) simp

lemma fas_2: "n \<noteq> Undefined \<Longrightarrow> fas (Num 2) n = get n 0"
  by (subst fas.simps) simp

lemma fas_3: "n \<noteq> Undefined \<Longrightarrow> fas (Num 3) n = get n 1"
  by (subst fas.simps) simp

text \<open>
  Below \<open>2 ^ 32\<close> the recursive call is the one the code documents: resolve half the
  address, then take the head (address 2) or the tail (address 3) of the result.
\<close>

lemma fas_step:
  assumes "3 < a" and "a < 2 ^ 32" and "n \<noteq> Undefined"
  shows "fas (Num a) n = rbind (fas (Num (a div 2)) n) (\<lambda>p. fas (Num (2 + a mod 2)) p)"
proof -
  have "fas (Num a) n =
      Option.bind (fas (js_half_int32 (Num a)) n)
        (\<lambda>r. case r of Inl e \<Rightarrow> Some (Inl e)
              | Inr p \<Rightarrow> fas (js_add 2 (js_rem (Num a) 2)) p)"
    using assms by (subst fas.simps) simp
  also have "\<dots> = rbind (fas (Num (a div 2)) n) (\<lambda>p. fas (Num (2 + a mod 2)) p)"
    using assms
    by (simp add: js_half_small js_parity_small rbind_def split: option.splits sum.splits)
  finally show ?thesis .
qed

text \<open>A negative address is halved down to 0, where \<^verbatim>\<open>fas\<close> throws.\<close>

lemma fas_negative:
  assumes "n \<noteq> Undefined"
  shows "a < 0 \<Longrightarrow> - (2 ^ 31) \<le> a \<Longrightarrow> fas (Num a) n = throw (InvalidFasAddr (Num 0))"
proof (induction "nat (- a)" arbitrary: a rule: less_induct)
  case less
  let ?h = "- (- a div 2)"
  have "fas (Num a) n =
      Option.bind (fas (js_half_int32 (Num a)) n)
        (\<lambda>r. case r of Inl e \<Rightarrow> Some (Inl e)
              | Inr p \<Rightarrow> fas (js_add 2 (js_rem (Num a) 2)) p)"
    using assms less.prems by (subst fas.simps) simp
  also have "js_half_int32 (Num a) = Num ?h"
    using less.prems by (rule js_half_negative)
  also have "fas (Num ?h) n = throw (InvalidFasAddr (Num 0))"
  proof (cases "?h = 0")
    case True
    with assms show ?thesis
      by (simp add: fas_0)
  next
    case False
    with less.prems have "?h < 0" "- (2 ^ 31) \<le> ?h" "nat (- ?h) < nat (- a)"
      by simp_all
    with less.hyps [of ?h] show ?thesis
      by simp
  qed
  finally show ?case
    by (simp add: throw_def)
qed

text \<open>\<^verbatim>\<open>(4294967296 / 2)|0\<close> is \<open>- 2147483648\<close>: at \<open>2 ^ 32\<close> the address wraps.\<close>

lemma fas_wraps:
  assumes "n \<noteq> Undefined"
  shows "fas (Num (2 ^ 32)) n = throw (InvalidFasAddr (Num 0))"
proof -
  have h: "js_half_int32 (Num (2 ^ 32)) = Num (- (2 ^ 31))"
    by (simp add: js_half_int32_def to_int32_def)
  have "fas (Num (2 ^ 32)) n =
      Option.bind (fas (js_half_int32 (Num (2 ^ 32))) n)
        (\<lambda>r. case r of Inl e \<Rightarrow> Some (Inl e)
              | Inr p \<Rightarrow> fas (js_add 2 (js_rem (Num (2 ^ 32)) 2)) p)"
    using assms by (subst fas.simps) simp
  also have "fas (js_half_int32 (Num (2 ^ 32))) n = throw (InvalidFasAddr (Num 0))"
    unfolding h using assms by (intro fas_negative) simp_all
  finally show ?thesis
    by (simp add: throw_def)
qed

lemma fas_heads:
  "d < 32 \<Longrightarrow> fas (Num (2 ^ d)) (heads_nested (d + k)) = ret (heads_nested k)"
proof (induction d arbitrary: k)
  case 0
  have "heads_nested k \<noteq> Undefined"
    by (cases k) simp_all
  then show ?case
    by (simp add: fas_1)
next
  case (Suc d)
  have nd: "heads_nested j \<noteq> Undefined" for j
    by (cases j) simp_all
  show ?case
  proof (cases "d = 0")
    case True
    then show ?thesis
      by (simp add: fas_2)
  next
    case False
    then have "(2::int) ^ 2 \<le> 2 ^ Suc d"
      by (intro power_increasing) simp_all
    then have lo: "3 < (2::int) ^ Suc d"
      by simp
    from Suc.prems have hi: "(2::int) ^ Suc d < 2 ^ 32"
      by (intro power_strict_increasing) simp_all
    from fas_step [OF lo hi nd [of "Suc d + k"]]
    have "fas (Num (2 ^ Suc d)) (heads_nested (Suc d + k)) =
        rbind (fas (Num (2 ^ d)) (heads_nested (d + Suc k))) (fas (Num 2))"
      by simp
    also have "\<dots> = rbind (ret (heads_nested (Suc k))) (fas (Num 2))"
      using Suc.IH [of "Suc k"] Suc.prems by simp
    also have "\<dots> = ret (heads_nested k)"
      by (simp add: fas_2)
    finally show ?thesis .
  qed
qed

subsection \<open>\<^verbatim>\<open>fas\<close> returns or throws\<close>

text \<open>
  \<^verbatim>\<open>fas\<close> never runs forever, whatever the address and the noun: after one step the
  address is a 32-bit number, and each further step halves its magnitude.
\<close>

definition fas_measure :: "jsval \<Rightarrow> nat" where
  "fas_measure v =
     (case to_number v of
        Num a \<Rightarrow> 2 * (if \<bar>a\<bar> < 2 ^ 32 then nat \<bar>a\<bar> else 2 ^ 32)
                 + (case v of Num b \<Rightarrow> 0 | _ \<Rightarrow> 1)
      | _ \<Rightarrow> 0)"

lemma get_Some: "\<exists>r. get n i = Some r"
  by (cases n) (simp_all add: ret_def throw_def)

lemma fas_base_total:
  assumes "k = 1 \<or> k = 2 \<or> k = 3"
  shows "\<exists>r. fas (Num k) p = Some r"
proof (cases "p = Undefined")
  case True
  then show ?thesis
    by (subst fas.simps) (simp add: throw_def)
next
  case False
  with assms get_Some [of p 0] get_Some [of p 1] show ?thesis
    by (subst fas.simps) (auto simp: ret_def)
qed

lemma fas_measure_half:
  assumes "to_number addr = Num a"
    and "addr \<noteq> Num 0"
  shows "fas_measure (js_half_int32 addr) < fas_measure addr"
proof -
  let ?b = "to_int32 (sgn a * (\<bar>a\<bar> div 2))"
  have h: "js_half_int32 addr = Num ?b"
    using assms(1) by (simp add: js_half_int32_def)
  from to_int32_range [of "sgn a * (\<bar>a\<bar> div 2)"] have "\<bar>?b\<bar> < 2 ^ 32"
    by (simp add: abs_less_iff)
  then have mb: "fas_measure (Num ?b) = 2 * nat \<bar>?b\<bar>"
    by (simp add: fas_measure_def)
  have ma: "fas_measure addr =
      2 * (if \<bar>a\<bar> < 2 ^ 32 then nat \<bar>a\<bar> else 2 ^ 32) + (case addr of Num b \<Rightarrow> 0 | _ \<Rightarrow> 1)"
    using assms(1) by (simp add: fas_measure_def)
  note le = abs_to_int32_half [of a]
  show ?thesis
  proof (cases addr)
    case (Num c)
    with assms have "a = c" "a \<noteq> 0"
      by simp_all
    then have "\<bar>a\<bar> div 2 < \<bar>a\<bar>"
      by simp
    have "nat \<bar>?b\<bar> < (if \<bar>a\<bar> < 2 ^ 32 then nat \<bar>a\<bar> else 2 ^ 32)"
    proof (cases "\<bar>a\<bar> < 2 ^ 32")
      case True
      with le \<open>\<bar>a\<bar> div 2 < \<bar>a\<bar>\<close> have "\<bar>?b\<bar> < \<bar>a\<bar>"
        by simp
      with True show ?thesis
        by (simp add: zless_nat_conj)
    next
      case False
      with le have "\<bar>?b\<bar> < 2 ^ 32"
        by simp
      then have "nat \<bar>?b\<bar> < 2 ^ 32"
        by (simp add: nat_less_iff)
      with False show ?thesis
        by simp
    qed
    with Num show ?thesis
      unfolding h mb ma by simp
  next
    case Undefined
    with assms show ?thesis by simp
  next
    case NaN
    with assms show ?thesis by simp
  next
    case (Arr i xs)
    have "nat \<bar>?b\<bar> \<le> (if \<bar>a\<bar> < 2 ^ 32 then nat \<bar>a\<bar> else 2 ^ 32)"
    proof (cases "\<bar>a\<bar> < 2 ^ 32")
      case True
      have "\<bar>a\<bar> div 2 \<le> \<bar>a\<bar>"
        by simp
      with le True have "\<bar>?b\<bar> \<le> \<bar>a\<bar>"
        by simp
      then have "nat \<bar>?b\<bar> \<le> nat \<bar>a\<bar>"
        by (rule nat_mono)
      with True show ?thesis
        by simp
    next
      case False
      with le have "\<bar>?b\<bar> \<le> 2 ^ 32"
        by simp
      then have "nat \<bar>?b\<bar> \<le> 2 ^ 32"
        by (simp add: nat_le_iff)
      with False show ?thesis
        by simp
    qed
    with Arr show ?thesis
      unfolding h mb ma by simp
  qed
qed

lemma js_parity_cases:
  assumes "to_number addr = Num a"
  shows "js_add 2 (js_rem addr 2) = Num 1 \<or> js_add 2 (js_rem addr 2) = Num 2
     \<or> js_add 2 (js_rem addr 2) = Num 3"
proof -
  have "\<bar>a\<bar> mod 2 = 0 \<or> \<bar>a\<bar> mod 2 = 1"
    by presburger
  moreover have "sgn a = - 1 \<or> sgn a = 0 \<or> sgn a = 1"
    by (auto simp: sgn_if)
  ultimately have "2 + sgn a * (\<bar>a\<bar> mod \<bar>2\<bar>) \<in> {1, 2, 3}"
    by auto
  moreover have "js_double x = x" if "x \<in> {1, 2, 3}" for x
    using that by (intro js_double_small) auto
  ultimately show ?thesis
    using assms by (auto simp add: js_rem_def)
qed

lemma fas_total: "\<exists>r. fas addr n = Some r"
proof (cases "n = Undefined")
  case True
  then show ?thesis
    by (simp add: fas_undefined throw_def)
next
  case nd: False
  show ?thesis
  proof (induction addr rule: measure_induct_rule [of fas_measure])
    case (less addr)
    consider "addr = Num 0 \<or> addr = Num 1 \<or> addr = Num 2 \<or> addr = Num 3"
      | "addr \<noteq> Num 0" "addr \<noteq> Num 1" "addr \<noteq> Num 2" "addr \<noteq> Num 3"
      by blast
    then show ?case
    proof cases
      case 1
      with nd get_Some [of n 0] get_Some [of n 1] show ?thesis
        by (subst fas.simps) (auto simp: ret_def throw_def)
    next
      case 2
      then have unfold: "fas addr n =
          Option.bind (fas (js_half_int32 addr) n)
            (\<lambda>r. case r of Inl e \<Rightarrow> Some (Inl e)
                  | Inr p \<Rightarrow> fas (js_add 2 (js_rem addr 2)) p)"
        using nd by (subst fas.simps) simp
      show ?thesis
      proof (cases "\<exists>a. to_number addr = Num a")
        case False
        then have "js_half_int32 addr = Num 0"
          by (cases "to_number addr") (simp_all add: js_half_int32_def)
        with nd show ?thesis
          unfolding unfold by (simp add: fas_0 throw_def)
      next
        case True
        then obtain a where a: "to_number addr = Num a" ..
        from fas_measure_half [OF a 2(1)] less.IH
        obtain r where r: "fas (js_half_int32 addr) n = Some r"
          by blast
        show ?thesis
        proof (cases r)
          case (Inl e)
          with r show ?thesis
            unfolding unfold by simp
        next
          case (Inr p)
          from js_parity_cases [OF a] fas_base_total [of _ p]
          obtain q where "fas (js_add 2 (js_rem addr 2)) p = Some q"
            by metis
          with r Inr show ?thesis
            unfolding unfold by simp
        qed
      qed
    qed
  qed
qed

subsection \<open>Addresses from \<open>2 ^ 32\<close>\<close>

text \<open>
  C5. \<^verbatim>\<open>fas\<close> follows its recursive definition for addresses below \<open>2 ^ 32\<close>
  (\<open>fas_1\<close>, \<open>fas_2\<close>, \<open>fas_3\<close>, \<open>fas_step\<close>), not for every address above 3: \<^verbatim>\<open>|0\<close>
  reduces half the address to 32 bits. On the noun nested 32 deep along its heads,
  address \<open>2 ^ 31\<close> resolves to the cell \<^verbatim>\<open>[0, 0]\<close>, whose head is 0, and address
  \<open>2 ^ 32\<close>, which is even and has \<open>2 ^ 31\<close> as its half, throws
  \<^verbatim>\<open>'invalid fas addr: 0'\<close> in place of resolving to that head.
\<close>

theorem fas_address_wraps:
  "fas (Num (2 ^ 31)) (heads_nested 32) = ret (Arr 0 [Num 0, Num 0]) \<and>
   fas (Num 2) (Arr 0 [Num 0, Num 0]) = ret (Num 0) \<and>
   fas (Num (2 ^ 32)) (heads_nested 32) = throw (InvalidFasAddr (Num 0))"
proof -
  have "heads_nested 32 \<noteq> Undefined"
    by (simp add: numeral_eq_Suc)
  then have "fas (Num (2 ^ 32)) (heads_nested 32) = throw (InvalidFasAddr (Num 0))"
    by (rule fas_wraps)
  moreover have "fas (Num (2 ^ 31)) (heads_nested (31 + 1)) = ret (heads_nested 1)"
    by (rule fas_heads) simp
  ultimately show ?thesis
    by (simp add: fas_2)
qed

subsection \<open>\<^verbatim>\<open>fas\<close> and \<^verbatim>\<open>slot\<close> against the resolver of the specification\<close>

lemma resolve_0: "resolve 0 m = None"
  by (subst resolve.simps) simp

lemma resolve_1: "resolve (Suc 0) m = Some m"
  by (subst resolve.simps) simp

lemma resolve_2: "resolve 2 m = head m"
  by (subst resolve.simps) simp

lemma resolve_3: "resolve 3 m = tail m"
  by (subst resolve.simps) simp

lemma resolve_step:
  "3 < a \<Longrightarrow> resolve a m =
     (case resolve (a div 2) m of None \<Rightarrow> None
      | Some parent \<Rightarrow> if even a then head parent else tail parent)"
  by (subst resolve.simps) simp

lemma noun_of_defined: "noun_of n = Some m \<Longrightarrow> n \<noteq> Undefined"
  by auto

lemma get_head:
  assumes "noun_of n = Some m"
  shows "case head m of
           Some v \<Rightarrow> \<exists>p. get n 0 = ret p \<and> noun_of p = Some v
         | None \<Rightarrow> get n 0 = ret Undefined"
  using assms by (cases n rule: noun_of.cases) (auto split: if_splits option.splits)

lemma get_tail:
  assumes "noun_of n = Some m"
  shows "case tail m of
           Some v \<Rightarrow> \<exists>p. get n 1 = ret p \<and> noun_of p = Some v
         | None \<Rightarrow> get n 1 = ret Undefined"
  using assms by (cases n rule: noun_of.cases) (auto split: if_splits option.splits)

text \<open>
  On a noun and an address from 1 below \<open>2 ^ 32\<close>, \<^verbatim>\<open>fas\<close> returns what the resolver
  of the specification resolves to; where that one fails, \<^verbatim>\<open>fas\<close> returns \<^verbatim>\<open>undefined\<close>
  (the last step took the head or tail of an atom) or throws \<^verbatim>\<open>'invalid fas noun'\<close>
  (an earlier step did).
\<close>

lemma fas_resolve:
  assumes n: "noun_of n = Some m"
  shows "0 < a \<Longrightarrow> a < 2 ^ 32 \<Longrightarrow>
     (case resolve a m of
        Some v \<Rightarrow> \<exists>p. fas (Num (int a)) n = ret p \<and> noun_of p = Some v
      | None \<Rightarrow> fas (Num (int a)) n = ret Undefined \<or>
                fas (Num (int a)) n = throw InvalidFasNoun)"
proof (induction a rule: less_induct)
  case (less a)
  from n have nd: "n \<noteq> Undefined"
    by (rule noun_of_defined)
  consider "a = 1" | "a = 2" | "a = 3" | "3 < a"
    using less.prems by linarith
  then show ?case
  proof cases
    case 1
    then show ?thesis
      using n nd by (simp add: fas_1 resolve_1)
  next
    case 2
    then show ?thesis
      using get_head [OF n] nd by (simp add: fas_2 resolve_2 split: option.splits)
  next
    case 3
    then show ?thesis
      using get_tail [OF n] nd by (simp add: fas_3 resolve_3 split: option.splits)
  next
    case 4
    let ?h = "a div 2"
    have h: "?h < a" "0 < ?h" "?h < 2 ^ 32"
      using 4 less.prems by simp_all
    have step: "fas (Num (int a)) n =
        rbind (fas (Num (int ?h)) n) (\<lambda>p. fas (Num (2 + int a mod 2)) p)"
      using fas_step [of "int a" n] 4 less.prems nd
      by (simp add: zdiv_int)
    have "int a mod 2 = (if even a then 0 else 1)"
      by presburger
    then have parity: "Num (2 + int a mod 2) = (if even a then Num 2 else Num 3)"
      by simp
    note IH = less.IH [OF h]
    show ?thesis
    proof (cases "resolve ?h m")
      case None
      with IH have "fas (Num (int ?h)) n = ret Undefined \<or>
          fas (Num (int ?h)) n = throw InvalidFasNoun"
        by simp
      then have "fas (Num (int a)) n = throw InvalidFasNoun"
        unfolding step by (auto simp: fas_undefined)
      with None 4 show ?thesis
        by (simp add: resolve_step)
    next
      case (Some parent)
      with IH obtain p where p: "fas (Num (int ?h)) n = ret p" "noun_of p = Some parent"
        by auto
      then have pd: "p \<noteq> Undefined"
        by auto
      have "fas (Num (int a)) n = (if even a then get p 0 else get p 1)"
        unfolding step p parity using pd by (simp add: fas_2 fas_3)
      with Some 4 get_head [OF p(2)] get_tail [OF p(2)] show ?thesis
        by (simp add: resolve_step split: option.splits)
    qed
  qed
qed

text \<open>
  Whatever the address, what \<^verbatim>\<open>fas\<close> returns on a noun is \<^verbatim>\<open>undefined\<close> or a noun. The
  proof is by induction on the calls of \<^verbatim>\<open>fas\<close>.
\<close>

lemma get_noun:
  assumes "is_noun n" and "get n i = Some (Inr p)"
  shows "p = Undefined \<or> is_noun p"
  using assms unfolding is_noun_def
  by (cases n rule: noun_of.cases)
     (auto simp: ret_def throw_def nth_Cons' split: if_splits option.splits)

lemma fas_noun_aux:
  assumes "fas addr n = Some y"
  shows "(n = Undefined \<and> y = Inl InvalidFasNoun) \<or>
         (n \<noteq> Undefined \<and>
          (is_noun n \<longrightarrow> (case y of Inl e \<Rightarrow> True | Inr p \<Rightarrow> p = Undefined \<or> is_noun p)))"
    (is "?P addr n y")
proof (rule fas.raw_induct [where P = ?P, OF _ assms])
  fix fas' addr n y
  assume IH: "\<And>a m z. fas' a m = Some z \<Longrightarrow> ?P a m z"
    and body: "(if strict_eq n Undefined then throw InvalidFasNoun
      else if strict_eq addr (Num 0) then throw (InvalidFasAddr (Num 0))
      else if strict_eq addr (Num 1) then ret n
      else if strict_eq addr (Num 2) then get n 0
      else if strict_eq addr (Num 3) then get n 1
      else Option.bind (fas' (js_half_int32 addr) n)
             (\<lambda>r. case r of Inl e \<Rightarrow> Some (Inl e)
                   | Inr p \<Rightarrow> fas' (js_add 2 (js_rem addr 2)) p)) = Some y"
  show "?P addr n y"
  proof (cases "n = Undefined")
    case True
    with body show ?thesis
      by (simp add: throw_def)
  next
    case nd: False
    consider "addr = Num 0" | "addr = Num 1" | "addr = Num 2" | "addr = Num 3"
      | "addr \<noteq> Num 0" "addr \<noteq> Num 1" "addr \<noteq> Num 2" "addr \<noteq> Num 3"
      by blast
    then show ?thesis
    proof cases
      case 1
      with body nd show ?thesis
        by (auto simp: throw_def)
    next
      case 2
      with body nd show ?thesis
        by (auto simp: ret_def)
    next
      case 3
      with body nd get_noun [of n 0] show ?thesis
        by (auto split: sum.splits)
    next
      case 4
      with body nd get_noun [of n 1] show ?thesis
        by (auto split: sum.splits)
    next
      case 5
      from body nd 5 obtain r where r: "fas' (js_half_int32 addr) n = Some r"
        and y: "(case r of Inl e \<Rightarrow> Some (Inl e)
                 | Inr p \<Rightarrow> fas' (js_add 2 (js_rem addr 2)) p) = Some y"
        by (auto simp: bind_eq_Some_conv)
      show ?thesis
      proof (cases r)
        case (Inl e)
        with y nd show ?thesis by auto
      next
        case (Inr p)
        with y have o: "fas' (js_add 2 (js_rem addr 2)) p = Some y"
          by simp
        from r Inr have i: "fas' (js_half_int32 addr) n = Some (Inr p)"
          by simp
        from IH [OF i] nd have p: "is_noun n \<longrightarrow> p = Undefined \<or> is_noun p"
          by simp
        from IH [OF o] p nd show ?thesis
          by (auto simp: is_noun_def)
      qed
    qed
  qed
qed

lemma fas_noun:
  "is_noun n \<Longrightarrow> fas addr n = ret p \<Longrightarrow> p = Undefined \<or> is_noun p"
  using fas_noun_aux [of addr n "Inr p"] by (auto simp: ret_def is_noun_def)

lemma slot_noun:
  "is_noun s \<Longrightarrow> slot c s f = ret (p, c') \<Longrightarrow> is_noun p \<and> c' = c"
  unfolding slot_def
  by (cases "fas f s")
     (auto simp: rbind_def ret_def throw_def split: sum.splits if_splits
        dest: fas_noun [unfolded ret_def])

text \<open>
  C4, as the claim states it: the resolver fails whenever it takes the head or tail of
  an atom, as for address 2 on an atom, and never returns a value that is no noun.
  \<^verbatim>\<open>fas(2, 5)\<close> does not fail: it returns \<^verbatim>\<open>undefined\<close>, which is no noun.
\<close>

theorem fas_missing_child_counterexample:
  "fas (Num 2) (Num 5) = ret Undefined \<and> \<not> is_noun Undefined"
  by (simp add: fas_2 is_noun_def)

text \<open>
  C4, amended. On every noun, \<^verbatim>\<open>fas\<close> and \<^verbatim>\<open>slot\<close> throw \<^verbatim>\<open>'invalid fas addr: 0'\<close> for
  address 0. \<^verbatim>\<open>fas\<close> itself returns \<^verbatim>\<open>undefined\<close> when its last step takes the head or
  tail of an atom; it is \<^verbatim>\<open>slot\<close>, the handler of opcode 0 around it, that fails then:
  for an address from 1 below \<open>2 ^ 32\<close>, when the resolution takes the head or tail of
  an atom \<^verbatim>\<open>slot\<close> throws \<^verbatim>\<open>'invalid fas noun'\<close> or \<^verbatim>\<open>'invalid fas addr: ' + address\<close>, and
  otherwise it returns the noun the address resolves to. Whatever the address, what
  \<^verbatim>\<open>slot\<close> returns on a noun is a noun.
\<close>

theorem resolver_failures:
  assumes n: "noun_of n = Some m"
  shows "fas (Num 0) n = throw (InvalidFasAddr (Num 0)) \<and>
     slot c n (Num 0) = throw (InvalidFasAddr (Num 0)) \<and>
     (0 < a \<and> a < 2 ^ 32 \<and> resolve a m = None \<longrightarrow>
        slot c n (Num (int a)) = throw InvalidFasNoun \<or>
        slot c n (Num (int a)) = throw (InvalidFasAddr (Num (int a)))) \<and>
     (\<forall>v. 0 < a \<and> a < 2 ^ 32 \<and> resolve a m = Some v \<longrightarrow>
        (\<exists>p. slot c n (Num (int a)) = ret (p, c) \<and> noun_of p = Some v)) \<and>
     (\<forall>p c'. slot c n f = ret (p, c') \<longrightarrow> is_noun p)"
proof (intro conjI impI allI)
  from n have nd: "n \<noteq> Undefined"
    by (rule noun_of_defined)
  then show z: "fas (Num 0) n = throw (InvalidFasAddr (Num 0))"
    by (rule fas_0)
  then show "slot c n (Num 0) = throw (InvalidFasAddr (Num 0))"
    by (simp add: slot_def)
next
  assume a: "0 < a \<and> a < 2 ^ 32 \<and> resolve a m = None"
  with fas_resolve [OF n, of a]
  have "fas (Num (int a)) n = ret Undefined \<or> fas (Num (int a)) n = throw InvalidFasNoun"
    by simp
  then show "slot c n (Num (int a)) = throw InvalidFasNoun \<or>
      slot c n (Num (int a)) = throw (InvalidFasAddr (Num (int a)))"
    by (auto simp: slot_def)
next
  fix v
  assume a: "0 < a \<and> a < 2 ^ 32 \<and> resolve a m = Some v"
  with fas_resolve [OF n, of a]
  obtain p where p: "fas (Num (int a)) n = ret p" "noun_of p = Some v"
    by auto
  then have "p \<noteq> Undefined"
    by auto
  with p show "\<exists>p. slot c n (Num (int a)) = ret (p, c) \<and> noun_of p = Some v"
    by (simp add: slot_def)
next
  fix p c'
  assume "slot c n f = ret (p, c')"
  with n slot_noun [of n c f p c'] show "is_noun p"
    by (simp add: is_noun_def)
qed

theorem resolver_failures_witness:
  "noun_of (Arr 0 [Num 1, Num 2]) = Some (Cell (Atom 1) (Atom 2)) \<and>
   resolve 4 (Cell (Atom 1) (Atom 2)) = None \<and>
   resolve 3 (Cell (Atom 1) (Atom 2)) = Some (Atom 2) \<and>
   fas (Num 0) (Arr 0 [Num 1, Num 2]) = throw (InvalidFasAddr (Num 0)) \<and>
   slot 0 (Arr 0 [Num 1, Num 2]) (Num 0) = throw (InvalidFasAddr (Num 0)) \<and>
   slot 0 (Arr 0 [Num 1, Num 2]) (Num 4) = throw (InvalidFasAddr (Num 4)) \<and>
   slot 0 (Arr 0 [Num 1, Num 2]) (Num 3) = ret (Num 2, 0) \<and>
   is_noun (Num 2)"
proof -
  have n: "noun_of (Arr 0 [Num 1, Num 2]) = Some (Cell (Atom 1) (Atom 2))"
    by simp
  have r: "resolve 4 (Cell (Atom 1) (Atom 2)) = None"
    by (simp add: resolve_step resolve_2)
  have r3: "resolve 3 (Cell (Atom 1) (Atom 2)) = Some (Atom 2)"
    by (simp add: resolve_3)
  have s: "slot 0 (Arr 0 [Num 1, Num 2]) (Num 3) = ret (Num 2, 0)"
    by (simp add: slot_def fas_3)
  have t: "slot 0 (Arr 0 [Num 1, Num 2]) (Num 4) \<noteq> throw InvalidFasNoun"
    using fas_step [of 4 "Arr 0 [Num 1, Num 2]"] by (simp add: slot_def fas_2)
  from resolver_failures [OF n, of 0 4 "Num 3"] n r r3 s t show ?thesis
    by simp
qed

section \<open>The associator\<close>

text \<open>A flat sequence of atoms is grouped into the right-nested noun of its elements.\<close>

lemma assoc_flat:
  "\<exists>v c'. assoc c (Arr i (Num (int k) # map (\<lambda>j. Num (int j)) ks)) = ret (v, c') \<and>
          noun_of v = Some (nest k ks)"
proof (induction ks arbitrary: k c i)
  case Nil
  then show ?case by simp
next
  case (Cons j js)
  from Cons.IH [of "Suc c" c j]
  obtain v c' where
    "assoc (Suc c) (Arr c (Num (int j) # map (\<lambda>j. Num (int j)) js)) = ret (v, c')"
    and "noun_of v = Some (nest j js)"
    by blast
  then show ?case
    by simp
qed

text \<open>
  C9, as the claim states it: for two elements or more the head of the pair is the
  first element as supplied. On \<^verbatim>\<open>[[1, 2, 3], 4]\<close> the head of the result is
  \<^verbatim>\<open>[1, [2, 3]]\<close>, not the first element \<^verbatim>\<open>[1, 2, 3]\<close>: their elements at index 1 differ.
\<close>

theorem assoc_head_counterexample:
  "assoc 10 (Arr 0 [Arr 1 [Num 1, Num 2, Num 3], Num 4])
     = ret (Arr 15 [Arr 13 [Num 1, Arr 12 [Num 2, Num 3]], Num 4], 16) \<and>
   get (Arr 13 [Num 1, Arr 12 [Num 2, Num 3]]) 1 \<noteq> get (Arr 1 [Num 1, Num 2, Num 3]) 1"
  by simp

text \<open>
  C9, amended. For a sequence of two elements or more, \<^verbatim>\<open>assoc\<close> returns the pair of
  \<^verbatim>\<open>assoc\<close> of the first element and \<^verbatim>\<open>assoc\<close> of the sequence of the others: the head is
  associated too, and is the first element as supplied when that is a number. A
  sequence of one element gives \<^verbatim>\<open>assoc\<close> of that element, which is the element itself
  when it is a number. The empty sequence is returned as it is, the same array.
\<close>

theorem assoc_pairs:
  "assoc c (Arr i (y # z # zs)) =
     rbind (assoc c y) (\<lambda>(a, c1).
     rbind (assoc (Suc c1) (Arr c1 (z # zs))) (\<lambda>(b, c2).
       ret (Arr c2 [a, b], Suc c2))) \<and>
   assoc c (Arr i (Num k # z # zs)) =
     rbind (assoc (Suc c) (Arr c (z # zs))) (\<lambda>(b, c2). ret (Arr c2 [Num k, b], Suc c2)) \<and>
   assoc c (Arr i [Arr j ys]) = assoc c (Arr j ys) \<and>
   assoc c (Arr i [Num k]) = ret (Num k, c) \<and>
   assoc c (Arr i []) = ret (Arr i [], c)"
  by simp

end
